theory Spec2Isabelle
  imports Main "HOL-Library.Word"
begin

section \<open>Machine types and the destination stream\<close>

text \<open>
  The C++ type \<^verbatim>\<open>int\<close> is a 32-bit word and \<^verbatim>\<open>std::streamsize\<close> a 64-bit
  word, both read as two's complement (\<open>sint\<close>); arithmetic wraps around. An
  \<^verbatim>\<open>int\<close> passed where a \<^verbatim>\<open>streamsize\<close> is expected is sign-extended (\<open>scast\<close>).
\<close>

type_synonym cint = "32 word"
type_synonym streamsize = "64 word"

text \<open>
  \<^verbatim>\<open>std::ios::fmtflags\<close> is a bitmask; it is modelled as the set of the bits that are
  on. The three field masks are the standard ones.
\<close>

datatype fmtflag =
  boolalpha | dec | fixed | hex | internal | left | oct | right | scientific
  | showbase | showpoint | showpos | skipws | unitbuf | uppercase

definition adjustfield :: "fmtflag set" where
  "adjustfield = {left, right, internal}"

definition basefield :: "fmtflag set" where
  "basefield = {dec, oct, hex}"

definition floatfield :: "fmtflag set" where
  "floatfield = {scientific, fixed}"

text \<open>
  The part of a \<^verbatim>\<open>std::ostream\<close> the formatter touches: its formatting
  configuration (width, precision, flags, fill) and the characters written to it so far.
\<close>

record ostream =
  width :: streamsize
  precision :: streamsize
  flags :: "fmtflag set"
  fill :: char
  buffer :: string

text \<open>\<^verbatim>\<open>out.setf(f)\<close>, \<^verbatim>\<open>out.setf(f, mask)\<close> and \<^verbatim>\<open>out.unsetf(mask)\<close>.\<close>

definition setf :: "fmtflag set \<Rightarrow> ostream \<Rightarrow> ostream" where
  "setf f os = os\<lparr>flags := flags os \<union> f\<rparr>"

definition setf_masked :: "fmtflag set \<Rightarrow> fmtflag set \<Rightarrow> ostream \<Rightarrow> ostream" where
  "setf_masked f m os = os\<lparr>flags := (flags os - m) \<union> (f \<inter> m)\<rparr>"

definition unsetf :: "fmtflag set \<Rightarrow> ostream \<Rightarrow> ostream" where
  "unsetf m os = os\<lparr>flags := flags os - m\<rparr>"

text \<open>
  \<^verbatim>\<open>out.write(s, n)\<close>: unformatted output of the first \<open>n\<close> characters at \<open>s\<close>.
\<close>

definition emit :: "string \<Rightarrow> ostream \<Rightarrow> ostream" where
  "emit p os = os\<lparr>buffer := buffer os @ p\<rparr>"

definition ostream_write :: "string \<Rightarrow> nat \<Rightarrow> ostream \<Rightarrow> ostream" where
  "ostream_write s n os = emit (take n s) os"

text \<open>
  \<^verbatim>\<open>out << str\<close> for a \<^verbatim>\<open>std::string\<close>: formatted output. The string is padded with
  the fill character up to the field width, after the text when the adjustment is
  \<open>left\<close> and before it otherwise, and the width is reset to 0.
\<close>

definition insert_string :: "string \<Rightarrow> ostream \<Rightarrow> ostream" where
  "insert_string str os =
     (let pad = replicate (nat (sint (width os)) - length str) (fill os);
          txt = (if flags os \<inter> adjustfield = {left} then str @ pad else pad @ str)
      in (emit txt os)\<lparr>width := 0\<rparr>)"

section \<open>Format strings and cursors\<close>

text \<open>
  A \<^verbatim>\<open>const char*\<close> into the NUL-terminated format string is modelled by the
  characters from the pointer onwards: \<open>deref c\<close> is \<^verbatim>\<open>*c\<close>, \<open>tl c\<close> is
  \<^verbatim>\<open>c + 1\<close>, and for two pointers \<open>fmt\<close>, \<open>c\<close> into the same string with
  \<open>c\<close> not before \<open>fmt\<close> the difference \<^verbatim>\<open>c - fmt\<close> is
  \<open>length fmt - length c\<close>. The end of the list is the terminator; a NUL character
  inside the list terminates the string as well.
\<close>

definition deref :: "string \<Rightarrow> char" where
  "deref c = (case c of [] \<Rightarrow> CHR 0x00 | x # _ \<Rightarrow> x)"

definition is_digit :: "char \<Rightarrow> bool" where
  "is_digit x = ((48::nat) \<le> of_char x \<and> of_char x \<le> (57::nat))"

definition digit_value :: "char \<Rightarrow> cint" where
  "digit_value x = of_nat (of_char x - 48)"

text \<open>
  \<^verbatim>\<open>parseIntAndAdvance\<close>: the loop carries the accumulator \<open>i\<close>; the function
  returns the integer and the advanced cursor. Overflow of \<^verbatim>\<open>10 * i + digit\<close>
  wraps around in 32 bits.
\<close>

fun parseIntLoop :: "cint \<Rightarrow> string \<Rightarrow> cint \<times> string" where
  "parseIntLoop i [] = (i, [])"
| "parseIntLoop i (x # xs) =
     (if is_digit x then parseIntLoop (10 * i + digit_value x) xs else (i, x # xs))"

definition parseIntAndAdvance :: "string \<Rightarrow> cint \<times> string" where
  "parseIntAndAdvance c = parseIntLoop 0 c"

section \<open>The literal scanner\<close>

text \<open>
  \<^verbatim>\<open>printFormatStringLiteral\<close>. The loop state is the stream, the start \<open>fmt\<close> of
  the pending literal run and the cursor \<open>c\<close>. On \<^verbatim>\<open>%%\<close> the run is written, the
  new run starts at the second percent sign (\<^verbatim>\<open>fmt = ++c\<close>) and the loop's own
  \<^verbatim>\<open>++c\<close> steps over it.
\<close>

fun literalLoop :: "ostream \<Rightarrow> string \<Rightarrow> string \<Rightarrow> ostream \<times> string" where
  "literalLoop os fmt [] = (ostream_write fmt (length fmt - 0) os, [])"
| "literalLoop os fmt (x # cs) =
     (if x = CHR 0x00 then
        (ostream_write fmt (length fmt - length (x # cs)) os, x # cs)
      else if x = CHR ''%'' then
        (let os' = ostream_write fmt (length fmt - length (x # cs)) os
         in if deref cs \<noteq> CHR ''%'' then (os', x # cs)
            else literalLoop os' cs (tl cs))
      else literalLoop os fmt cs)"

definition printFormatStringLiteral :: "ostream \<Rightarrow> string \<Rightarrow> ostream \<times> string" where
  "printFormatStringLiteral os fmt = literalLoop os fmt fmt"

section \<open>Error reporting\<close>

text \<open>The eight conditions the source reports, named after their messages.\<close>

datatype error =
  NotEnoughConversionSpecifiers
  | NotEnoughArgumentsForWidth
  | NotEnoughArgumentsForPrecision
  | ConversionANotSupported
  | ConversionNNotSupported
  | TerminatedByEndOfString
  | NotEnoughFormatArguments
  | TooManyConversionSpecifiers

text \<open>
  The macro \<^verbatim>\<open>TINYFORMAT_ERROR\<close> comes from the header, which is not part of the
  sources at hand, so what it does is a parameter: under \<open>Continue\<close> the host records
  the error and the statement after the macro runs; under \<open>Abort\<close> control leaves the
  formatter at the macro (an exception or an abort). The world outside the formatter is
  the destination stream and the errors reported so far.
\<close>

datatype error_policy = Continue | Abort

record env =
  out :: ostream
  reported :: "error list"

datatype 'a outcome = Returns 'a | Throws env

definition and_then :: "'a outcome \<Rightarrow> ('a \<Rightarrow> 'b outcome) \<Rightarrow> 'b outcome" where
  "and_then m f = (case m of Returns a \<Rightarrow> f a | Throws w \<Rightarrow> Throws w)"

definition TINYFORMAT_ERROR ::
  "error_policy \<Rightarrow> error \<Rightarrow> 'a env_scheme \<Rightarrow> 'a env_scheme outcome" where
  "TINYFORMAT_ERROR pol e s =
     (let s' = s\<lparr>reported := reported s @ [e]\<rparr>
      in case pol of Continue \<Rightarrow> Returns s' | Abort \<Rightarrow> Throws (env.truncate s'))"

section \<open>Arguments\<close>

text \<open>
  \<^verbatim>\<open>detail::FormatArg\<close> is declared in the header; the formatter uses two of its
  members, which are taken as given: \<^verbatim>\<open>toInt()\<close> and
  \<^verbatim>\<open>format(out, fmtBegin, fmtEnd, ntrunc)\<close>, the latter any function on the
  stream. The array \<^verbatim>\<open>formatters\<close> and its length \<^verbatim>\<open>numFormatters\<close> are one
  list.
\<close>

record FormatArg =
  toInt :: cint
  format :: "ostream \<Rightarrow> string \<Rightarrow> string \<Rightarrow> cint \<Rightarrow> ostream"

section \<open>The specifier interpreter\<close>

text \<open>
  The variables of \<^verbatim>\<open>streamStateFromFormat\<close>: the stream and the error sink, the
  three reference parameters \<open>spacePadPositive\<close>, \<open>ntrunc\<close> and \<open>argIndex\<close>, and the
  locals \<open>precisionSet\<close>, \<open>widthSet\<close> and \<open>widthExtra\<close>. The cursor \<open>c\<close> is passed
  beside the frame.
\<close>

record frame = env +
  spacePadPositive :: bool
  ntrunc :: cint
  argIndex :: nat
  precisionSet :: bool
  widthSet :: bool
  widthExtra :: cint

text \<open>Lines 66 to 76: the stream is reset and the locals are initialised.\<close>

definition resetState :: "frame \<Rightarrow> frame" where
  "resetState s =
     s\<lparr>out := unsetf (adjustfield \<union> basefield \<union> floatfield
                       \<union> {showbase, boolalpha, showpoint, showpos, uppercase})
                ((out s)\<lparr>width := 0, precision := 6, fill := CHR '' ''\<rparr>),
       precisionSet := False, widthSet := False, widthExtra := 0\<rparr>"

text \<open>Step 1, the flag loop.\<close>

definition is_flag :: "char \<Rightarrow> bool" where
  "is_flag x = (x = CHR ''#'' \<or> x = CHR ''0'' \<or> x = CHR ''-'' \<or> x = CHR '' '' \<or> x = CHR ''+'')"

fun parseFlags :: "frame \<Rightarrow> string \<Rightarrow> frame \<times> string" where
  "parseFlags s [] = (s, [])"
| "parseFlags s (x # cs) =
     (if x = CHR ''#'' then
        parseFlags (s\<lparr>out := setf {showpoint, showbase} (out s)\<rparr>) cs
      else if x = CHR ''0'' then
        parseFlags
          (if left \<notin> flags (out s)
           then s\<lparr>out := setf_masked {internal} adjustfield ((out s)\<lparr>fill := CHR ''0''\<rparr>)\<rparr>
           else s) cs
      else if x = CHR ''-'' then
        parseFlags (s\<lparr>out := setf_masked {left} adjustfield ((out s)\<lparr>fill := CHR '' ''\<rparr>)\<rparr>) cs
      else if x = CHR '' '' then
        parseFlags (if showpos \<notin> flags (out s) then s\<lparr>spacePadPositive := True\<rparr> else s) cs
      else if x = CHR ''+'' then
        parseFlags (s\<lparr>out := setf {showpos} (out s), spacePadPositive := False,
                      widthExtra := 1\<rparr>) cs
      else (s, x # cs))"

text \<open>Step 2, the width: a literal, then a star.\<close>

definition applyStarWidth :: "cint \<Rightarrow> frame \<Rightarrow> frame" where
  "applyStarWidth w s =
     (if w <s 0
      then s\<lparr>out := (setf_masked {left} adjustfield ((out s)\<lparr>fill := CHR '' ''\<rparr>))
                      \<lparr>width := scast (- w)\<rparr>\<rparr>
      else s\<lparr>out := (out s)\<lparr>width := scast w\<rparr>\<rparr>)"

definition parseWidth ::
  "error_policy \<Rightarrow> FormatArg list \<Rightarrow> frame \<Rightarrow> string \<Rightarrow> (frame \<times> string) outcome" where
  "parseWidth pol formatters s c =
     (let (s1, c1) =
            (if is_digit (deref c)
             then (let (w, c') = parseIntAndAdvance c
                   in (s\<lparr>out := (out s)\<lparr>width := scast w\<rparr>, widthSet := True\<rparr>, c'))
             else (s, c))
      in if deref c1 = CHR ''*'' then
           (let s2 = s1\<lparr>widthSet := True\<rparr>
            in and_then
                 (if argIndex s2 < length formatters
                  then Returns (toInt (formatters ! argIndex s2),
                                s2\<lparr>argIndex := argIndex s2 + 1\<rparr>)
                  else and_then (TINYFORMAT_ERROR pol NotEnoughArgumentsForWidth s2)
                         (\<lambda>s3. Returns (0, s3)))
                 (\<lambda>(w, s3). Returns (applyStarWidth w s3, tl c1)))
         else Returns (s1, c1))"

text \<open>Step 3, the precision.\<close>

definition parsePrecision ::
  "error_policy \<Rightarrow> FormatArg list \<Rightarrow> frame \<Rightarrow> string \<Rightarrow> (frame \<times> string) outcome" where
  "parsePrecision pol formatters s c =
     (if deref c = CHR ''.'' then
        (let c1 = tl c
         in and_then
              (if deref c1 = CHR ''*'' then
                 (if argIndex s < length formatters
                  then Returns (toInt (formatters ! argIndex s),
                                s\<lparr>argIndex := argIndex s + 1\<rparr>, tl c1)
                  else and_then (TINYFORMAT_ERROR pol NotEnoughArgumentsForPrecision s)
                         (\<lambda>s'. Returns (0, s', tl c1)))
               else if is_digit (deref c1) then
                 (let (p, c2) = parseIntAndAdvance c1 in Returns (p, s, c2))
               else if deref c1 = CHR ''-'' then
                 (let (p, c2) = parseIntAndAdvance (tl c1) in Returns (0, s, c2))
               else Returns (0, s, c1))
              (\<lambda>(p, s', c2).
                 Returns (s'\<lparr>out := (out s')\<lparr>precision := scast p\<rparr>, precisionSet := True\<rparr>, c2)))
      else Returns (s, c))"

text \<open>Step 4, the C99 length modifiers.\<close>

definition is_length_modifier :: "char \<Rightarrow> bool" where
  "is_length_modifier x =
     (x = CHR ''l'' \<or> x = CHR ''h'' \<or> x = CHR ''L'' \<or> x = CHR ''j'' \<or> x = CHR ''z''
      \<or> x = CHR ''t'')"

fun skipLengthModifiers :: "string \<Rightarrow> string" where
  "skipLengthModifiers [] = []"
| "skipLengthModifiers (x # cs) =
     (if is_length_modifier x then skipLengthModifiers cs else x # cs)"

text \<open>Steps 1 to 4: from the character after the percent sign to the conversion character.\<close>

definition parseToConversion ::
  "error_policy \<Rightarrow> FormatArg list \<Rightarrow> frame \<Rightarrow> string \<Rightarrow> (frame \<times> string) outcome" where
  "parseToConversion pol formatters s c =
     (let (s1, c1) = parseFlags s c
      in and_then (parseWidth pol formatters s1 c1)
           (\<lambda>(s2, c2). and_then (parsePrecision pol formatters s2 c2)
              (\<lambda>(s3, c3). Returns (s3, skipLengthModifiers c3))))"

text \<open>
  Step 5, the switch on the conversion character, and lines 228 to 238: the integer
  precision emulated by the width, and the return of \<^verbatim>\<open>c + 1\<close>. The case
  \<^verbatim>\<open>'\0'\<close> returns \<^verbatim>\<open>c\<close> from inside the switch.
\<close>

definition integerPrecision :: "bool \<Rightarrow> frame \<Rightarrow> frame" where
  "integerPrecision intConversion s =
     (if intConversion \<and> precisionSet s \<and> \<not> widthSet s
      then s\<lparr>out := (setf_masked {internal} adjustfield
                       ((out s)\<lparr>width := precision (out s) + scast (widthExtra s)\<rparr>))
                      \<lparr>fill := CHR ''0''\<rparr>\<rparr>
      else s)"

definition applyConversion ::
  "error_policy \<Rightarrow> frame \<Rightarrow> string \<Rightarrow> (frame \<times> string) outcome" where
  "applyConversion pol s c =
     (let x = deref c;
          finish = (\<lambda>intConversion s'. Returns (integerPrecision intConversion s', tl c))
      in if x = CHR ''u'' \<or> x = CHR ''d'' \<or> x = CHR ''i'' then
           finish True (s\<lparr>out := setf_masked {dec} basefield (out s)\<rparr>)
         else if x = CHR ''o'' then
           finish True (s\<lparr>out := setf_masked {oct} basefield (out s)\<rparr>)
         else if x = CHR ''X'' then
           finish True (s\<lparr>out := setf_masked {hex} basefield (setf {uppercase} (out s))\<rparr>)
         else if x = CHR ''x'' \<or> x = CHR ''p'' then
           finish True (s\<lparr>out := setf_masked {hex} basefield (out s)\<rparr>)
         else if x = CHR ''E'' then
           finish False (s\<lparr>out := setf_masked {dec} basefield
                           (setf_masked {scientific} floatfield (setf {uppercase} (out s)))\<rparr>)
         else if x = CHR ''e'' then
           finish False (s\<lparr>out := setf_masked {dec} basefield
                           (setf_masked {scientific} floatfield (out s))\<rparr>)
         else if x = CHR ''F'' then
           finish False (s\<lparr>out := setf_masked {fixed} floatfield (setf {uppercase} (out s))\<rparr>)
         else if x = CHR ''f'' then
           finish False (s\<lparr>out := setf_masked {fixed} floatfield (out s)\<rparr>)
         else if x = CHR ''G'' then
           finish False (s\<lparr>out := unsetf floatfield
                           (setf_masked {dec} basefield (setf {uppercase} (out s)))\<rparr>)
         else if x = CHR ''g'' then
           finish False (s\<lparr>out := unsetf floatfield (setf_masked {dec} basefield (out s))\<rparr>)
         else if x = CHR ''a'' \<or> x = CHR ''A'' then
           and_then (TINYFORMAT_ERROR pol ConversionANotSupported s) (finish False)
         else if x = CHR ''c'' then
           finish False s
         else if x = CHR ''s'' then
           finish False
             ((if precisionSet s then s\<lparr>ntrunc := ucast (precision (out s))\<rparr> else s)
                \<lparr>out := setf {boolalpha} (out s)\<rparr>)
         else if x = CHR ''n'' then
           and_then (TINYFORMAT_ERROR pol ConversionNNotSupported s) (finish False)
         else if x = CHR 0x00 then
           and_then (TINYFORMAT_ERROR pol TerminatedByEndOfString s) (\<lambda>s'. Returns (s', c))
         else finish False s)"

text \<open>\<^verbatim>\<open>streamStateFromFormat\<close>: the check of the percent sign, the reset, steps 1 to 6.\<close>

definition streamStateFromFormat ::
  "error_policy \<Rightarrow> FormatArg list \<Rightarrow> frame \<Rightarrow> string \<Rightarrow> (frame \<times> string) outcome" where
  "streamStateFromFormat pol formatters s fmtStart =
     (if deref fmtStart \<noteq> CHR ''%'' then
        and_then (TINYFORMAT_ERROR pol NotEnoughConversionSpecifiers s)
          (\<lambda>s'. Returns (s', fmtStart))
      else
        and_then (parseToConversion pol formatters (resetState s) (tl fmtStart))
          (\<lambda>(s4, c4). applyConversion pol s4 c4))"

section \<open>The driver\<close>

text \<open>
  How one pass through the body of the loop of \<^verbatim>\<open>formatImpl\<close> ends: with the next
  iteration (the stream and error sink, the cursor \<open>fmt\<close> and the incremented argument
  index), with the \<^verbatim>\<open>return\<close> statement of line 265, or with control leaving the
  formatter at an error.
\<close>

datatype control = Proceed env string nat | ReturnStatement env | Exception env

text \<open>
  \<^verbatim>\<open>tmpStream.copyfmt(out)\<close> on a fresh \<^verbatim>\<open>std::ostringstream\<close>: the formatting
  configuration of \<open>out\<close> and an empty buffer.
\<close>

definition copyfmt_fresh :: "ostream \<Rightarrow> ostream" where
  "copyfmt_fresh os = os\<lparr>buffer := []\<rparr>"

text \<open>
  Lines 255 to 286, the body of the loop. The frame handed to the interpreter carries
  the two fresh reference variables (\<open>spacePadPositive = false\<close>, \<open>ntrunc = -1\<close>) and
  the loop's \<open>argIndex\<close>; the interpreter's own locals are initialised by it.
\<close>

definition formatIteration ::
  "error_policy \<Rightarrow> FormatArg list \<Rightarrow> nat \<Rightarrow> env \<Rightarrow> string \<Rightarrow> control" where
  "formatIteration pol formatters idx w fmt0 =
     (let (os1, fmt) = printFormatStringLiteral (out w) fmt0;
          s = \<lparr>out = os1, reported = reported w, spacePadPositive = False, ntrunc = - 1,
               argIndex = idx, precisionSet = False, widthSet = False, widthExtra = 0\<rparr>
      in case streamStateFromFormat pol formatters s fmt of
           Throws w' \<Rightarrow> Exception w'
         | Returns (s', fmtEnd) \<Rightarrow>
             if argIndex s' \<ge> length formatters then
               (case TINYFORMAT_ERROR pol NotEnoughFormatArguments (env.truncate s') of
                  Throws w' \<Rightarrow> Exception w'
                | Returns w' \<Rightarrow> ReturnStatement w')
             else
               (let arg = formatters ! argIndex s';
                    os2 =
                      (if \<not> spacePadPositive s' then
                         format arg (out s') fmt fmtEnd (ntrunc s')
                       else
                         (let tmpStream = setf {showpos} (copyfmt_fresh (out s'));
                              tmpStream' = format arg tmpStream fmt fmtEnd (ntrunc s');
                              result = map (\<lambda>ch. if ch = CHR ''+'' then CHR '' '' else ch)
                                         (buffer tmpStream')
                          in insert_string result (out s')))
                in Proceed \<lparr>out = os2, reported = reported s'\<rparr> fmtEnd (argIndex s' + 1)))"

text \<open>
  The argument index never decreases in the interpreter, so each pass through the body
  hands a larger index to the next one, and the loop terminates.
\<close>

lemma parseFlags_argIndex: "argIndex (fst (parseFlags s c)) = argIndex s"
  by (induction c arbitrary: s) simp_all

lemma parseWidth_argIndex:
  "parseWidth pol formatters s c = Returns (s', c') \<Longrightarrow> argIndex s \<le> argIndex s'"
  by (auto simp: parseWidth_def and_then_def TINYFORMAT_ERROR_def applyStarWidth_def Let_def
      split: if_splits prod.splits error_policy.splits)

lemma parsePrecision_argIndex:
  "parsePrecision pol formatters s c = Returns (s', c') \<Longrightarrow> argIndex s \<le> argIndex s'"
  by (auto simp: parsePrecision_def and_then_def TINYFORMAT_ERROR_def Let_def
      split: if_splits prod.splits error_policy.splits)

lemma integerPrecision_argIndex: "argIndex (integerPrecision b s) = argIndex s"
  by (simp add: integerPrecision_def)

lemma applyConversion_argIndex:
  "applyConversion pol s c = Returns (s', c') \<Longrightarrow> argIndex s' = argIndex s"
  by (auto simp: applyConversion_def and_then_def TINYFORMAT_ERROR_def Let_def
      integerPrecision_argIndex split: if_splits error_policy.splits)

lemma and_then_Returns:
  "and_then m f = Returns b \<longleftrightarrow> (\<exists>a. m = Returns a \<and> f a = Returns b)"
  by (cases m) (simp_all add: and_then_def)

lemma parseToConversion_argIndex:
  assumes "parseToConversion pol formatters s c = Returns (s', c')"
  shows "argIndex s \<le> argIndex s'"
proof -
  obtain s1 c1 where f: "parseFlags s c = (s1, c1)"
    by (cases "parseFlags s c") auto
  have a1: "argIndex s1 = argIndex s"
    using parseFlags_argIndex [of s c] f by simp
  from assms f obtain s2 c2 where w: "parseWidth pol formatters s1 c1 = Returns (s2, c2)"
    and r: "and_then (parsePrecision pol formatters s2 c2)
              (\<lambda>(s3, c3). Returns (s3, skipLengthModifiers c3)) = Returns (s', c')"
    by (auto simp: parseToConversion_def and_then_Returns)
  from r obtain c3 where p: "parsePrecision pol formatters s2 c2 = Returns (s', c3)"
    by (auto simp: and_then_Returns)
  from parseWidth_argIndex [OF w] parsePrecision_argIndex [OF p] a1 show ?thesis
    by simp
qed

lemma streamStateFromFormat_argIndex:
  assumes "streamStateFromFormat pol formatters s fmtStart = Returns (s', fmtEnd)"
  shows "argIndex s \<le> argIndex s'"
proof (cases "deref fmtStart = CHR ''%''")
  case False
  with assms show ?thesis
    by (auto simp: streamStateFromFormat_def and_then_Returns TINYFORMAT_ERROR_def Let_def
        split: error_policy.splits)
next
  case True
  with assms obtain s4 c4 where
    p: "parseToConversion pol formatters (resetState s) (tl fmtStart) = Returns (s4, c4)"
    and a: "applyConversion pol s4 c4 = Returns (s', fmtEnd)"
    by (auto simp: streamStateFromFormat_def and_then_Returns)
  have "argIndex (resetState s) = argIndex s"
    by (simp add: resetState_def)
  with parseToConversion_argIndex [OF p] applyConversion_argIndex [OF a] show ?thesis
    by simp
qed

lemma formatIteration_argIndex:
  assumes "formatIteration pol formatters idx w fmt = Proceed w' fmt' idx'"
  shows "idx < idx'"
proof -
  obtain os1 fmt1 where l: "printFormatStringLiteral (out w) fmt = (os1, fmt1)"
    by (cases "printFormatStringLiteral (out w) fmt") auto
  define s where "s = \<lparr>out = os1, reported = reported w, spacePadPositive = False,
    ntrunc = - 1, argIndex = idx, precisionSet = False, widthSet = False, widthExtra = 0\<rparr>"
  from assms l obtain s' fmtEnd where
    r: "streamStateFromFormat pol formatters s fmt1 = Returns (s', fmtEnd)"
    and i: "idx' = argIndex s' + 1"
    by (auto simp: formatIteration_def s_def Let_def TINYFORMAT_ERROR_def
        split: outcome.splits if_splits error_policy.splits)
  from streamStateFromFormat_argIndex [OF r] i show ?thesis
    by (simp add: s_def)
qed

text \<open>The loop of lines 253 to 287, and \<^verbatim>\<open>formatImpl\<close> around it.\<close>

function formatLoop ::
  "error_policy \<Rightarrow> FormatArg list \<Rightarrow> nat \<Rightarrow> env \<Rightarrow> string \<Rightarrow> control" where
  "formatLoop pol formatters idx w fmt =
     (if idx < length formatters then
        (case formatIteration pol formatters idx w fmt of
           Proceed w' fmt' idx' \<Rightarrow> formatLoop pol formatters idx' w' fmt'
         | ReturnStatement w' \<Rightarrow> ReturnStatement w'
         | Exception w' \<Rightarrow> Exception w')
      else Proceed w fmt idx)"
  by pat_completeness auto
termination
  by (relation "measure (\<lambda>(pol, formatters, idx, w, fmt). length formatters - idx)")
    (auto dest: formatIteration_argIndex)

definition formatImpl ::
  "error_policy \<Rightarrow> ostream \<Rightarrow> string \<Rightarrow> FormatArg list \<Rightarrow> env outcome" where
  "formatImpl pol os fmt formatters =
     (let origWidth = width os;
          origPrecision = precision os;
          origFlags = flags os;
          origFill = fill os
      in case formatLoop pol formatters 0 \<lparr>out = os, reported = []\<rparr> fmt of
           Exception w \<Rightarrow> Throws w
         | ReturnStatement w \<Rightarrow> Returns w
         | Proceed w fmt1 idx \<Rightarrow>
             (let (os1, fmt2) = printFormatStringLiteral (out w) fmt1;
                  w1 = w\<lparr>out := os1\<rparr>
              in and_then
                   (if deref fmt2 \<noteq> CHR 0x00
                    then TINYFORMAT_ERROR pol TooManyConversionSpecifiers w1
                    else Returns w1)
                   (\<lambda>w2. Returns (w2\<lparr>out := (out w2)\<lparr>width := origWidth,
                                      precision := origPrecision, flags := origFlags,
                                      fill := origFill\<rparr>\<rparr>))))"

section \<open>Sample inputs and observations\<close>

text \<open>
  A freshly constructed stream, an argument that renders as a fixed text (inserted with
  \<^verbatim>\<open><<\<close>, so that it honours the width) and converts to a fixed integer, the
  errors a call of \<^verbatim>\<open>formatImpl\<close> reported, and the configuration that the reset of
  lines 67 to 73 followed by the conversion \<^verbatim>\<open>d\<close> gives a stream.
\<close>

definition os0 :: ostream where
  "os0 = \<lparr>width = 0, precision = 6, flags = {skipws, dec}, fill = CHR '' '', buffer = []\<rparr>"

definition fr0 :: frame where
  "fr0 = \<lparr>out = os0, reported = [], spacePadPositive = False, ntrunc = - 1, argIndex = 0,
           precisionSet = False, widthSet = False, widthExtra = 0\<rparr>"

definition textArg :: "cint \<Rightarrow> string \<Rightarrow> FormatArg" where
  "textArg n str = \<lparr>toInt = n, format = (\<lambda>os fmtBegin fmtEnd nt. insert_string str os)\<rparr>"

definition reported_by :: "env outcome \<Rightarrow> error list" where
  "reported_by r = (case r of Returns w \<Rightarrow> reported w | Throws w \<Rightarrow> reported w)"

definition decimalState :: "ostream \<Rightarrow> ostream" where
  "decimalState os =
     setf_masked {dec} basefield
       (unsetf (adjustfield \<union> basefield \<union> floatfield
                  \<union> {showbase, boolalpha, showpoint, showpos, uppercase})
          (os\<lparr>width := 0, precision := 6, fill := CHR '' ''\<rparr>))"

section \<open>Unfolding the model on concrete format strings\<close>

lemmas interp_defs =
  streamStateFromFormat_def parseToConversion_def parseWidth_def parsePrecision_def
  applyConversion_def integerPrecision_def resetState_def applyStarWidth_def
  and_then_def TINYFORMAT_ERROR_def deref_def is_digit_def digit_value_def
  parseIntAndAdvance_def is_length_modifier_def env.truncate_def

lemmas stream_defs =
  setf_def setf_masked_def unsetf_def emit_def ostream_write_def insert_string_def
  copyfmt_fresh_def adjustfield_def basefield_def floatfield_def

lemmas driver_defs =
  formatImpl_def formatIteration_def printFormatStringLiteral_def

section \<open>Properties of the literal scanner\<close>

text \<open>
  The pending literal run can be written at once: the loop started with a run \<open>p\<close>
  before the cursor behaves as the loop started at the cursor on a stream that already
  holds \<open>p\<close>. The four equations after it describe the scanner by the head of the
  format string.
\<close>

lemma emit_Nil: "emit [] os = os"
  by (simp add: emit_def)

lemma emit_emit: "emit q (emit p os) = emit (p @ q) os"
  by (simp add: emit_def)

lemma literalLoop_pending: "literalLoop os (p @ c) c = literalLoop (emit p os) c c"
proof (induction c arbitrary: p os)
  case Nil
  show ?case by (simp add: ostream_write_def emit_Nil)
next
  case (Cons x cs)
  have a: "literalLoop os ((p @ [x]) @ cs) cs = literalLoop (emit (p @ [x]) os) cs cs"
    by (rule Cons.IH)
  have b: "literalLoop (emit p os) ([x] @ cs) cs = literalLoop (emit [x] (emit p os)) cs cs"
    by (rule Cons.IH)
  from a b show ?case
    by (simp add: ostream_write_def emit_Nil emit_emit)
qed

lemma scan_Nil: "printFormatStringLiteral os [] = (os, [])"
  by (simp add: printFormatStringLiteral_def ostream_write_def emit_Nil)

lemma scan_plain:
  assumes "x \<noteq> CHR 0x00" and "x \<noteq> CHR ''%''"
  shows "printFormatStringLiteral os (x # cs) = printFormatStringLiteral (emit [x] os) cs"
  using assms literalLoop_pending [of os "[x]" cs]
  by (simp add: printFormatStringLiteral_def)

lemma scan_percent_pair:
  "printFormatStringLiteral os (CHR ''%'' # CHR ''%'' # cs)
     = printFormatStringLiteral (emit ''%'' os) cs"
  using literalLoop_pending [of os "''%''" cs]
  by (simp add: printFormatStringLiteral_def ostream_write_def emit_Nil deref_def)

lemma scan_percent_stop:
  assumes "deref cs \<noteq> CHR ''%''"
  shows "printFormatStringLiteral os (CHR ''%'' # cs) = (os, CHR ''%'' # cs)"
  using assms by (simp add: printFormatStringLiteral_def ostream_write_def emit_Nil)

lemma scan_percent_run:
  "printFormatStringLiteral os (replicate (2 * N) CHR ''%'' @ rest)
     = printFormatStringLiteral (emit (replicate N CHR ''%'') os) rest"
proof (induction N arbitrary: os)
  case 0
  show ?case by (simp add: emit_Nil)
next
  case (Suc N)
  have "printFormatStringLiteral os (replicate (2 * Suc N) CHR ''%'' @ rest)
      = printFormatStringLiteral (emit ''%'' os) (replicate (2 * N) CHR ''%'' @ rest)"
    by (simp add: scan_percent_pair)
  also have "\<dots> = printFormatStringLiteral (emit (replicate N CHR ''%'') (emit ''%'' os)) rest"
    by (rule Suc.IH)
  finally show ?case
    by (simp add: emit_emit)
qed

lemma scan_literal:
  assumes "CHR 0x00 \<notin> set fmt" and "CHR ''%'' \<notin> set fmt"
  shows "printFormatStringLiteral os fmt = (emit fmt os, [])"
  using assms
proof (induction fmt arbitrary: os)
  case Nil
  show ?case by (simp add: scan_Nil emit_Nil)
next
  case (Cons x cs)
  from Cons.prems have x: "x \<noteq> CHR 0x00" "x \<noteq> CHR ''%''"
    and cs: "CHR 0x00 \<notin> set cs" "CHR ''%'' \<notin> set cs"
    by auto
  have "printFormatStringLiteral os (x # cs) = printFormatStringLiteral (emit [x] os) cs"
    using x by (rule scan_plain)
  also have "\<dots> = (emit cs (emit [x] os), [])"
    using cs by (rule Cons.IH)
  finally show ?case
    by (simp add: emit_emit)
qed

section \<open>The driver restores the stream where it reaches its last lines\<close>

lemma restore_on_completion:
  assumes "formatLoop Continue formatters 0 \<lparr>out = os, reported = []\<rparr> fmt = Proceed w fmt1 idx"
  shows "\<exists>w'. formatImpl Continue os fmt formatters = Returns w'
     \<and> width (out w') = width os \<and> precision (out w') = precision os
     \<and> flags (out w') = flags os \<and> fill (out w') = fill os"
  using assms
  by (auto simp: formatImpl_def and_then_def TINYFORMAT_ERROR_def Let_def split: prod.splits)

section \<open>Properties of the specifier interpreter\<close>

text \<open>
  What the flag loop computes, what each step leaves unchanged, and the interpreter on a
  percent sign as the composition of its steps.
\<close>

lemma parseFlags_cursor: "snd (parseFlags s c) = dropWhile is_flag c"
  by (induction c arbitrary: s) (simp_all add: is_flag_def)

lemma parseFlags_spacePadPositive:
  "spacePadPositive (fst (parseFlags s c)) =
     (if CHR ''+'' \<in> set (takeWhile is_flag c) then False
      else if CHR '' '' \<in> set (takeWhile is_flag c)
        then showpos \<notin> flags (out s) \<or> spacePadPositive s
      else spacePadPositive s)"
  by (induction c arbitrary: s)
    (simp_all add: is_flag_def setf_def setf_masked_def adjustfield_def)

lemma parseFlags_widthExtra:
  "widthExtra (fst (parseFlags s c)) =
     (if CHR ''+'' \<in> set (takeWhile is_flag c) then 1 else widthExtra s)"
  by (induction c arbitrary: s) (simp_all add: is_flag_def)

lemma parseFlags_keeps:
  "precision (out (fst (parseFlags s c))) = precision (out s)
   \<and> ntrunc (fst (parseFlags s c)) = ntrunc s
   \<and> reported (fst (parseFlags s c)) = reported s
   \<and> precisionSet (fst (parseFlags s c)) = precisionSet s
   \<and> widthSet (fst (parseFlags s c)) = widthSet s"
  by (induction c arbitrary: s) (simp_all add: setf_def setf_masked_def)

lemma parseWidth_keeps:
  assumes "parseWidth pol formatters s c = Returns (s', c')"
  shows "spacePadPositive s' = spacePadPositive s \<and> widthExtra s' = widthExtra s
     \<and> ntrunc s' = ntrunc s \<and> precisionSet s' = precisionSet s
     \<and> precision (out s') = precision (out s)"
  using assms
  by (auto simp: parseWidth_def and_then_def TINYFORMAT_ERROR_def applyStarWidth_def Let_def
      setf_masked_def split: if_splits prod.splits error_policy.splits)

lemma parsePrecision_keeps:
  assumes "parsePrecision pol formatters s c = Returns (s', c')"
  shows "spacePadPositive s' = spacePadPositive s \<and> widthExtra s' = widthExtra s
     \<and> ntrunc s' = ntrunc s \<and> widthSet s' = widthSet s"
  using assms
  by (auto simp: parsePrecision_def and_then_def TINYFORMAT_ERROR_def Let_def
      split: if_splits prod.splits error_policy.splits)

lemma integerPrecision_keeps:
  "spacePadPositive (integerPrecision b s) = spacePadPositive s
   \<and> precision (out (integerPrecision b s)) = precision (out s)
   \<and> ntrunc (integerPrecision b s) = ntrunc s
   \<and> reported (integerPrecision b s) = reported s"
  by (simp add: integerPrecision_def setf_masked_def)

lemma applyConversion_keeps:
  assumes "applyConversion pol s c = Returns (s', c')"
  shows "spacePadPositive s' = spacePadPositive s \<and> precision (out s') = precision (out s)"
  using assms
  by (auto simp: applyConversion_def and_then_def TINYFORMAT_ERROR_def Let_def
      integerPrecision_keeps setf_def setf_masked_def unsetf_def
      split: if_splits error_policy.splits)

lemma parseToConversion_stages:
  assumes "parseToConversion pol formatters s c = Returns (s4, c4)"
  obtains s2 c2 s3 c3 where
    "parseWidth pol formatters (fst (parseFlags s c)) (snd (parseFlags s c)) = Returns (s2, c2)"
    and "parsePrecision pol formatters s2 c2 = Returns (s3, c3)"
    and "s4 = s3" and "c4 = skipLengthModifiers c3"
  using assms
  by (auto simp: parseToConversion_def and_then_Returns split: prod.splits)

lemma streamStateFromFormat_percent:
  assumes "deref fmtStart = CHR ''%''"
  shows "streamStateFromFormat pol formatters s fmtStart =
     and_then (parseToConversion pol formatters (resetState s) (tl fmtStart))
       (\<lambda>(s4, c4). applyConversion pol s4 c4)"
  using assms by (simp add: streamStateFromFormat_def)

lemma reset_keeps:
  "spacePadPositive (resetState s) = spacePadPositive s \<and> ntrunc (resetState s) = ntrunc s
   \<and> showpos \<notin> flags (out (resetState s)) \<and> widthExtra (resetState s) = 0
   \<and> precision (out (resetState s)) = 6"
  by (simp add: resetState_def unsetf_def)

lemma parseToConversion_keeps:
  assumes "parseToConversion pol formatters s c = Returns (s4, c4)"
  shows "spacePadPositive s4 = spacePadPositive (fst (parseFlags s c))
     \<and> widthExtra s4 = widthExtra (fst (parseFlags s c))
     \<and> ntrunc s4 = ntrunc s"
proof -
  from assms obtain s2 c2 s3 c3 where
    w: "parseWidth pol formatters (fst (parseFlags s c)) (snd (parseFlags s c)) = Returns (s2, c2)"
    and p: "parsePrecision pol formatters s2 c2 = Returns (s3, c3)" and e: "s4 = s3"
    by (rule parseToConversion_stages)
  from parseWidth_keeps [OF w] parsePrecision_keeps [OF p] e parseFlags_keeps [of s c]
  show ?thesis by simp
qed

lemma parseIntLoop_digits:
  assumes "\<forall>d \<in> set ds. is_digit d" and "\<not> is_digit (deref rest)"
  shows "snd (parseIntLoop i (ds @ rest)) = rest"
  using assms
proof (induction ds arbitrary: i)
  case Nil
  then show ?case by (cases rest) (simp_all add: deref_def)
next
  case (Cons d ds)
  then show ?case by simp
qed

lemma streamStateFromFormat_after_width:
  assumes "deref fmtStart = CHR ''%''"
    and "parseFlags (resetState s) (tl fmtStart) = (s1, c1)"
    and "parseWidth pol formatters s1 c1 = Returns (s2, c2)"
  shows "streamStateFromFormat pol formatters s fmtStart =
     and_then (parsePrecision pol formatters s2 c2)
       (\<lambda>(s3, c3). applyConversion pol s3 (skipLengthModifiers c3))"
  using assms
  by (cases "parsePrecision pol formatters s2 c2")
    (auto simp: streamStateFromFormat_def parseToConversion_def and_then_def)

lemma negative_precision_literal:
  assumes "\<forall>d \<in> set ds. is_digit d" and "\<not> is_digit (deref rest)"
  shows "parsePrecision pol formatters s (CHR ''.'' # CHR ''-'' # ds @ rest)
     = Returns (s\<lparr>out := (out s)\<lparr>precision := 0\<rparr>, precisionSet := True\<rparr>, rest)"
  using parseIntLoop_digits [OF assms, of 0]
  by (auto simp: parsePrecision_def deref_def is_digit_def and_then_def parseIntAndAdvance_def
      split: prod.splits)

text \<open>
  In a frame that reaches the conversion character, a precision is set and no width is
  set exactly when a dot follows the flag characters directly.
\<close>

lemma parseWidth_widthSet:
  assumes "parseWidth pol formatters s c = Returns (s', c')"
  shows "widthSet s' = (widthSet s \<or> is_digit (deref c) \<or> deref c = CHR ''*'')"
  using assms
  by (auto simp: parseWidth_def and_then_def TINYFORMAT_ERROR_def applyStarWidth_def Let_def
      split: if_splits prod.splits error_policy.splits)

lemma parseWidth_absent:
  assumes "\<not> is_digit (deref c)" and "deref c \<noteq> CHR ''*''"
  shows "parseWidth pol formatters s c = Returns (s, c)"
  using assms by (simp add: parseWidth_def)

lemma parsePrecision_precisionSet:
  assumes "parsePrecision pol formatters s c = Returns (s', c')"
  shows "precisionSet s' = (precisionSet s \<or> deref c = CHR ''.'')"
  using assms
  by (auto simp: parsePrecision_def and_then_def TINYFORMAT_ERROR_def Let_def
      split: if_splits prod.splits error_policy.splits)

lemma precision_without_width:
  assumes "parseToConversion pol formatters (resetState s) c = Returns (s4, c4)"
  shows "(precisionSet s4 \<and> \<not> widthSet s4) = (deref (dropWhile is_flag c) = CHR ''.'')"
proof -
  let ?s1 = "fst (parseFlags (resetState s) c)"
  let ?c1 = "dropWhile is_flag c"
  from assms obtain s2 c2 c3 where
    w: "parseWidth pol formatters ?s1 ?c1 = Returns (s2, c2)"
    and p: "parsePrecision pol formatters s2 c2 = Returns (s4, c3)"
    by (auto elim!: parseToConversion_stages simp: parseFlags_cursor)
  have s1: "\<not> widthSet ?s1" "\<not> precisionSet ?s1"
    using parseFlags_keeps [of "resetState s" c] by (simp_all add: resetState_def)
  have ws: "widthSet s4 = (is_digit (deref ?c1) \<or> deref ?c1 = CHR ''*'')"
    using parseWidth_widthSet [OF w] parsePrecision_keeps [OF p] s1 by simp
  have ps: "precisionSet s4 = (deref c2 = CHR ''.'')"
    using parsePrecision_precisionSet [OF p] parseWidth_keeps [OF w] s1 by simp
  show ?thesis
  proof (cases "is_digit (deref ?c1) \<or> deref ?c1 = CHR ''*''")
    case True
    then have "deref ?c1 \<noteq> CHR ''.''"
      by (auto simp: is_digit_def)
    with True ws show ?thesis by simp
  next
    case False
    then have "parseWidth pol formatters ?s1 ?c1 = Returns (?s1, ?c1)"
      by (simp add: parseWidth_absent)
    with w have "c2 = ?c1" by simp
    with False ws ps show ?thesis by simp
  qed
qed

section \<open>The steps on sample specifiers\<close>

lemmas sample_defs = fr0_def os0_def insert_Diff_if

lemma sample_plus_precision:
  "parseToConversion Continue [] (resetState fr0) (tl ''%+.5d|'')
     = Returns (fr0\<lparr>out := os0\<lparr>precision := 5, flags := {showpos, skipws}\<rparr>,
                    precisionSet := True, widthExtra := 1\<rparr>, ''d|'')"
  by (simp_all add: interp_defs stream_defs sample_defs)

lemma sample_negative_precision:
  "parseFlags (resetState fr0) (tl ''%.-12f|'') = (fr0\<lparr>out := os0\<lparr>flags := {skipws}\<rparr>\<rparr>, ''.-12f|'')"
  "parseWidth Continue [] (fr0\<lparr>out := os0\<lparr>flags := {skipws}\<rparr>\<rparr>) ''.-12f|''
     = Returns (fr0\<lparr>out := os0\<lparr>flags := {skipws}\<rparr>\<rparr>, ''.-12f|'')"
  by (simp_all add: interp_defs stream_defs sample_defs)

lemma sample_no_precision:
  "parseFlags (resetState fr0) (tl ''%f|'') = (fr0\<lparr>out := os0\<lparr>flags := {skipws}\<rparr>\<rparr>, ''f|'')"
  "parseWidth Continue [] (fr0\<lparr>out := os0\<lparr>flags := {skipws}\<rparr>\<rparr>) ''f|''
     = Returns (fr0\<lparr>out := os0\<lparr>flags := {skipws}\<rparr>\<rparr>, ''f|'')"
  by (simp_all add: interp_defs stream_defs sample_defs)

lemma sample_string_precision:
  "parseToConversion Continue [] (resetState fr0) (tl ''%.3s|'')
     = Returns (fr0\<lparr>out := os0\<lparr>precision := 3, flags := {skipws}\<rparr>, precisionSet := True\<rparr>,
                ''s|'')"
  by (simp_all add: interp_defs stream_defs sample_defs)

lemma sample_string_plain:
  "parseToConversion Continue [] (resetState fr0) (tl ''%s|'')
     = Returns (fr0\<lparr>out := os0\<lparr>flags := {skipws}\<rparr>\<rparr>, ''s|'')"
  by (simp_all add: interp_defs stream_defs sample_defs)

lemma sample_unrecognised:
  "parseToConversion Continue [] (resetState fr0) (tl ''%5.2k rest'')
     = Returns (fr0\<lparr>out := os0\<lparr>width := 5, precision := 2, flags := {skipws}\<rparr>,
                    precisionSet := True, widthSet := True\<rparr>, ''k rest'')"
  by (simp_all add: interp_defs stream_defs sample_defs)

section \<open>The claims\<close>

text \<open>
  C1. The claim: the stream's width, precision, flags and fill after \<^verbatim>\<open>formatImpl\<close>
  equal those before the call on every exit path, the failure "Not enough format
  arguments" included. The code leaves through the \<^verbatim>\<open>return\<close> of line 265 without
  reaching the restoring lines 295 to 298: for the format string \<^verbatim>\<open>%*d\<close> and one
  argument that converts to 5, the star consumes the only argument, the error is
  reported, and the call returns with the width 5 on a stream whose width was 0.
\<close>

theorem formatImpl_returns_without_restoring:
  "formatImpl Continue os0 ''%*d'' [textArg 5 ''5'']
     = Returns \<lparr>out = os0\<lparr>width := 5\<rparr>, reported = [NotEnoughFormatArguments]\<rparr>
   \<and> width os0 = 0"
  by (auto simp: driver_defs interp_defs stream_defs os0_def textArg_def Let_def word_sless_alt)

text \<open>
  C2. For the format string \<^verbatim>\<open>%d %d\<close> and exactly one argument, whatever the
  argument, the stream and the error policy, \<^verbatim>\<open>formatImpl\<close> reports exactly one
  error: the count mismatch of line 292, raised because a conversion specifier is left
  in the format string when the arguments are used up (fewer arguments than
  specifiers).
\<close>

theorem two_specifiers_one_argument:
  "reported_by (formatImpl pol os ''%d %d'' [a]) = [TooManyConversionSpecifiers]"
  by (cases pol) (simp_all add: driver_defs interp_defs stream_defs reported_by_def)

text \<open>
  C3, as amended. For the format string \<^verbatim>\<open>%d\<close> and exactly two arguments,
  \<^verbatim>\<open>formatImpl\<close> reports exactly one error, and it is the one of line 63, "Not
  enough conversion specifiers in format string", not the one of line 292. It is
  reported in the second pass through the loop: when control leaves at the error
  (\<open>Abort\<close>) the first argument has been rendered on the stream as \<^verbatim>\<open>%d\<close>
  configures it and the (empty) literal text after the specifier has been scanned; when
  the host continues, the second argument is rendered as well and the stream is
  restored.
\<close>

theorem one_specifier_two_arguments:
  "reported_by (formatImpl pol os ''%d'' [a, b]) = [NotEnoughConversionSpecifiers]
   \<and> formatImpl Abort os ''%d'' [a, b]
       = Throws \<lparr>out = format a (decimalState os) ''%d'' [] (- 1),
                  reported = [NotEnoughConversionSpecifiers]\<rparr>
   \<and> formatImpl Continue os ''%d'' [a, b]
       = Returns \<lparr>out = (format b (format a (decimalState os) ''%d'' [] (- 1)) [] [] (- 1))
                          \<lparr>width := width os, precision := precision os, flags := flags os,
                            fill := fill os\<rparr>,
                   reported = [NotEnoughConversionSpecifiers]\<rparr>"
proof (intro conjI)
  show "reported_by (formatImpl pol os ''%d'' [a, b]) = [NotEnoughConversionSpecifiers]"
    by (cases pol) (simp_all add: driver_defs interp_defs stream_defs reported_by_def)
  show "formatImpl Abort os ''%d'' [a, b]
       = Throws \<lparr>out = format a (decimalState os) ''%d'' [] (- 1),
                  reported = [NotEnoughConversionSpecifiers]\<rparr>"
    by (auto simp: driver_defs interp_defs stream_defs decimalState_def)
  show "formatImpl Continue os ''%d'' [a, b]
       = Returns \<lparr>out = (format b (format a (decimalState os) ''%d'' [] (- 1)) [] [] (- 1))
                          \<lparr>width := width os, precision := precision os, flags := flags os,
                            fill := fill os\<rparr>,
                   reported = [NotEnoughConversionSpecifiers]\<rparr>"
    by (auto simp: driver_defs interp_defs stream_defs decimalState_def)
qed

text \<open>
  C3 as stated fails: on a fresh stream and two sample arguments the only error
  reported for \<^verbatim>\<open>%d\<close> is "Not enough conversion specifiers"; "Too many conversion
  specifiers" is not reported.
\<close>

theorem one_specifier_two_arguments_not_too_many:
  "reported_by (formatImpl Continue os0 ''%d'' [textArg 1 ''1'', textArg 2 ''2''])
      = [NotEnoughConversionSpecifiers]
   \<and> TooManyConversionSpecifiers
       \<notin> set (reported_by (formatImpl Continue os0 ''%d'' [textArg 1 ''1'', textArg 2 ''2'']))"
  by (simp add: driver_defs interp_defs stream_defs reported_by_def)

text \<open>
  C4. When the interpreter reaches a conversion character of the integer family
  (\<^verbatim>\<open>d i u o x X p\<close>) with a precision given (\<open>precisionSet\<close>) and no width given
  (\<open>widthSet\<close> false), it returns just past that character with the stream width set
  to the stream precision plus 1 if a plus sign is among the flags of the specifier and
  plus 0 otherwise, with the fill character \<^verbatim>\<open>'0'\<close> and with \<open>internal\<close> as the
  only adjustment bit. The precision itself stays as parsed. (By
  \<open>precision_without_width\<close> the condition on the frame holds exactly when a dot
  follows the flags of the specifier directly.)
\<close>

theorem integer_precision_as_width:
  assumes "deref fmtStart = CHR ''%''"
    and "parseToConversion pol formatters (resetState s) (tl fmtStart) = Returns (s4, c4)"
    and "deref c4 \<in> set ''diuoxXp''"
    and "precisionSet s4" and "\<not> widthSet s4"
  shows "\<exists>s'. streamStateFromFormat pol formatters s fmtStart = Returns (s', tl c4)
     \<and> width (out s') = precision (out s')
          + (if CHR ''+'' \<in> set (takeWhile is_flag (tl fmtStart)) then 1 else 0)
     \<and> precision (out s') = precision (out s4)
     \<and> fill (out s') = CHR ''0''
     \<and> flags (out s') \<inter> adjustfield = {internal}"
proof -
  have we: "widthExtra s4 = (if CHR ''+'' \<in> set (takeWhile is_flag (tl fmtStart)) then 1 else 0)"
    using parseToConversion_keeps [OF assms(2)] reset_keeps [of s]
    by (simp add: parseFlags_widthExtra)
  from assms(3) consider "deref c4 = CHR ''d''" | "deref c4 = CHR ''i''" | "deref c4 = CHR ''u''"
    | "deref c4 = CHR ''o''" | "deref c4 = CHR ''x''" | "deref c4 = CHR ''X''"
    | "deref c4 = CHR ''p''"
    by auto
  then show ?thesis
    using assms(1,2,4,5) we
    by cases
      (auto simp: streamStateFromFormat_percent and_then_def applyConversion_def
        integerPrecision_def setf_def setf_masked_def adjustfield_def basefield_def)
qed

theorem integer_precision_as_width_witness:
  "deref ''%+.5d|'' = CHR ''%'' \<and> deref ''d|'' \<in> set ''diuoxXp''
   \<and> (\<exists>s'. streamStateFromFormat Continue [] fr0 ''%+.5d|'' = Returns (s', ''|'')
         \<and> width (out s') = 6 \<and> precision (out s') = 5 \<and> fill (out s') = CHR ''0''
         \<and> flags (out s') \<inter> adjustfield = {internal})"
proof -
  have p: "deref ''%+.5d|'' = CHR ''%''" "deref ''d|'' \<in> set ''diuoxXp''"
    by (simp_all add: deref_def)
  have s: "precisionSet (fr0\<lparr>out := os0\<lparr>precision := 5, flags := {showpos, skipws}\<rparr>,
                    precisionSet := True, widthExtra := 1\<rparr>)"
    "\<not> widthSet (fr0\<lparr>out := os0\<lparr>precision := 5, flags := {showpos, skipws}\<rparr>,
                    precisionSet := True, widthExtra := 1\<rparr>)"
    by (simp_all add: fr0_def)
  from integer_precision_as_width [OF p(1) sample_plus_precision p(2) s]
  have "\<exists>s'. streamStateFromFormat Continue [] fr0 ''%+.5d|'' = Returns (s', ''|'')
         \<and> width (out s') = 6 \<and> precision (out s') = 5 \<and> fill (out s') = CHR ''0''
         \<and> flags (out s') \<inter> adjustfield = {internal}"
    by (auto simp: fr0_def os0_def is_flag_def)
  then show ?thesis
    by (intro conjI p)
qed

text \<open>
  C5. For a specifier (the cursor at a percent sign) entered with \<open>spacePadPositive\<close>
  false, as \<^verbatim>\<open>formatImpl\<close> enters it (line 257): after the flag loop, and in the frame
  the interpreter returns, \<open>spacePadPositive\<close> is true exactly when the run of flag
  characters after the percent sign contains a space and no plus sign, in whichever
  order the flags stand.
\<close>

theorem space_flag_yields_to_plus:
  assumes "deref fmtStart = CHR ''%''" and "\<not> spacePadPositive s"
  shows "spacePadPositive (fst (parseFlags (resetState s) (tl fmtStart)))
       = (CHR '' '' \<in> set (takeWhile is_flag (tl fmtStart))
          \<and> CHR ''+'' \<notin> set (takeWhile is_flag (tl fmtStart)))
     \<and> (\<forall>s' fmtEnd. streamStateFromFormat pol formatters s fmtStart = Returns (s', fmtEnd)
          \<longrightarrow> spacePadPositive s'
              = (CHR '' '' \<in> set (takeWhile is_flag (tl fmtStart))
                 \<and> CHR ''+'' \<notin> set (takeWhile is_flag (tl fmtStart))))"
proof (intro conjI allI impI)
  show f: "spacePadPositive (fst (parseFlags (resetState s) (tl fmtStart)))
       = (CHR '' '' \<in> set (takeWhile is_flag (tl fmtStart))
          \<and> CHR ''+'' \<notin> set (takeWhile is_flag (tl fmtStart)))"
    using assms(2) reset_keeps [of s]
    by (simp add: parseFlags_spacePadPositive)
  fix s' fmtEnd
  assume r: "streamStateFromFormat pol formatters s fmtStart = Returns (s', fmtEnd)"
  from r assms(1) obtain s4 c4 where
    p: "parseToConversion pol formatters (resetState s) (tl fmtStart) = Returns (s4, c4)"
    and a: "applyConversion pol s4 c4 = Returns (s', fmtEnd)"
    by (auto simp: streamStateFromFormat_percent and_then_Returns)
  from parseToConversion_keeps [OF p] applyConversion_keeps [OF a] f
  show "spacePadPositive s'
       = (CHR '' '' \<in> set (takeWhile is_flag (tl fmtStart))
          \<and> CHR ''+'' \<notin> set (takeWhile is_flag (tl fmtStart)))"
    by simp
qed

theorem space_flag_yields_to_plus_witness:
  "deref ''% d'' = CHR ''%'' \<and> deref ''%+ d'' = CHR ''%'' \<and> deref ''% +d'' = CHR ''%''
   \<and> \<not> spacePadPositive fr0
   \<and> (\<exists>s' fmtEnd. streamStateFromFormat Continue [] fr0 ''% d'' = Returns (s', fmtEnd)
         \<and> spacePadPositive s')
   \<and> (\<exists>s' fmtEnd. streamStateFromFormat Continue [] fr0 ''%+ d'' = Returns (s', fmtEnd)
         \<and> \<not> spacePadPositive s')
   \<and> (\<exists>s' fmtEnd. streamStateFromFormat Continue [] fr0 ''% +d'' = Returns (s', fmtEnd)
         \<and> \<not> spacePadPositive s')"
proof -
  have p: "deref ''% d'' = CHR ''%''" "deref ''%+ d'' = CHR ''%''" "deref ''% +d'' = CHR ''%''"
    by (simp_all add: deref_def)
  have n: "\<not> spacePadPositive fr0"
    by (simp add: fr0_def)
  obtain s1 e1 where r1: "streamStateFromFormat Continue [] fr0 ''% d'' = Returns (s1, e1)"
    by (simp add: interp_defs stream_defs sample_defs)
  obtain s2 e2 where r2: "streamStateFromFormat Continue [] fr0 ''%+ d'' = Returns (s2, e2)"
    by (simp add: interp_defs stream_defs sample_defs)
  obtain s3 e3 where r3: "streamStateFromFormat Continue [] fr0 ''% +d'' = Returns (s3, e3)"
    by (simp add: interp_defs stream_defs sample_defs)
  have "spacePadPositive s1"
    using space_flag_yields_to_plus [OF p(1) n, of Continue "[]"] r1
    by (simp add: is_flag_def)
  moreover have "\<not> spacePadPositive s2"
    using space_flag_yields_to_plus [OF p(2) n, of Continue "[]"] r2
    by (simp add: is_flag_def)
  moreover have "\<not> spacePadPositive s3"
    using space_flag_yields_to_plus [OF p(3) n, of Continue "[]"] r3
    by (simp add: is_flag_def)
  ultimately show ?thesis
    using p n r1 r2 r3 by simp
qed

text \<open>
  C6. In the literal scanner a pair \<^verbatim>\<open>%%\<close> at the cursor emits exactly one percent
  sign and scanning goes on behind the pair; a run of \<open>2 * N\<close> percent signs emits
  exactly \<open>N\<close> of them and scanning goes on behind the run; and a run of
  \<open>2 * N + 1\<close> percent signs that ends there emits \<open>N\<close> and returns the cursor at the
  last percent sign of the run, the start of a specifier.
\<close>

theorem percent_runs_halve:
  "printFormatStringLiteral os (''%%'' @ rest) = printFormatStringLiteral (emit ''%'' os) rest
   \<and> printFormatStringLiteral os (replicate (2 * N) CHR ''%'' @ rest)
       = printFormatStringLiteral (emit (replicate N CHR ''%'') os) rest
   \<and> (deref rest \<noteq> CHR ''%'' \<longrightarrow>
        printFormatStringLiteral os (replicate (2 * N + 1) CHR ''%'' @ rest)
          = (emit (replicate N CHR ''%'') os, CHR ''%'' # rest))"
proof (intro conjI impI)
  show "printFormatStringLiteral os (''%%'' @ rest)
      = printFormatStringLiteral (emit ''%'' os) rest"
    by (simp add: scan_percent_pair)
  show "printFormatStringLiteral os (replicate (2 * N) CHR ''%'' @ rest)
      = printFormatStringLiteral (emit (replicate N CHR ''%'') os) rest"
    by (rule scan_percent_run)
  assume r: "deref rest \<noteq> CHR ''%''"
  have "replicate (2 * N + 1) CHR ''%'' @ rest = replicate (2 * N) CHR ''%'' @ (CHR ''%'' # rest)"
    by (simp add: replicate_append_same)
  then have "printFormatStringLiteral os (replicate (2 * N + 1) CHR ''%'' @ rest)
      = printFormatStringLiteral (emit (replicate N CHR ''%'') os) (CHR ''%'' # rest)"
    using scan_percent_run [of os N "CHR ''%'' # rest"] by simp
  with r show "printFormatStringLiteral os (replicate (2 * N + 1) CHR ''%'' @ rest)
      = (emit (replicate N CHR ''%'') os, CHR ''%'' # rest)"
    by (simp add: scan_percent_stop)
qed

theorem percent_runs_halve_witness:
  "deref ''d rest'' \<noteq> CHR ''%''
   \<and> printFormatStringLiteral os0 ''%%%%%d rest'' = (os0\<lparr>buffer := ''%%''\<rparr>, ''%d rest'')
   \<and> printFormatStringLiteral os0 ''%%%%'' = (os0\<lparr>buffer := ''%%''\<rparr>, [])"
  using percent_runs_halve [of os0 "''d rest''" 2] percent_runs_halve [of os0 "[]" 2]
  by (simp add: deref_def emit_def os0_def scan_Nil eval_nat_numeral)

text \<open>
  C7. Let the flags and the width of a specifier be parsed, with the cursor \<open>c2\<close> behind
  them. If \<open>c2\<close> stands at a dot, a minus sign and a (possibly empty) run of digits, the
  precision step reports no error under either policy, consumes the digits, marks the
  precision as set and sets the stream precision to 0, and 0 it is when the interpreter
  returns. If \<open>c2\<close> does not stand at a dot, the precision step changes nothing and the
  stream precision is 6, the value of the reset, when the interpreter returns.
\<close>

theorem negative_precision_is_zero:
  assumes "deref fmtStart = CHR ''%''"
    and "parseFlags (resetState s) (tl fmtStart) = (s1, c1)"
    and "parseWidth pol formatters s1 c1 = Returns (s2, c2)"
  shows "(c2 = CHR ''.'' # CHR ''-'' # ds @ rest \<and> (\<forall>d \<in> set ds. is_digit d)
          \<and> \<not> is_digit (deref rest) \<longrightarrow>
            parsePrecision pol formatters s2 c2
              = Returns (s2\<lparr>out := (out s2)\<lparr>precision := 0\<rparr>, precisionSet := True\<rparr>, rest)
            \<and> (\<forall>s' fmtEnd. streamStateFromFormat pol formatters s fmtStart = Returns (s', fmtEnd)
                 \<longrightarrow> precision (out s') = 0))
     \<and> (deref c2 \<noteq> CHR ''.'' \<longrightarrow>
            parsePrecision pol formatters s2 c2 = Returns (s2, c2)
            \<and> (\<forall>s' fmtEnd. streamStateFromFormat pol formatters s fmtStart = Returns (s', fmtEnd)
                 \<longrightarrow> precision (out s') = 6))"
proof (intro conjI impI allI)
  assume c: "c2 = CHR ''.'' # CHR ''-'' # ds @ rest \<and> (\<forall>d \<in> set ds. is_digit d)
      \<and> \<not> is_digit (deref rest)"
  then show p: "parsePrecision pol formatters s2 c2
      = Returns (s2\<lparr>out := (out s2)\<lparr>precision := 0\<rparr>, precisionSet := True\<rparr>, rest)"
    by (simp add: negative_precision_literal)
  fix s' fmtEnd
  assume "streamStateFromFormat pol formatters s fmtStart = Returns (s', fmtEnd)"
  then have "applyConversion pol (s2\<lparr>out := (out s2)\<lparr>precision := 0\<rparr>, precisionSet := True\<rparr>)
      (skipLengthModifiers rest) = Returns (s', fmtEnd)"
    using streamStateFromFormat_after_width [OF assms] p by (simp add: and_then_def)
  from applyConversion_keeps [OF this] show "precision (out s') = 0"
    by simp
next
  assume c: "deref c2 \<noteq> CHR ''.''"
  then show p: "parsePrecision pol formatters s2 c2 = Returns (s2, c2)"
    by (simp add: parsePrecision_def)
  have six: "precision (out s2) = 6"
    using parseWidth_keeps [OF assms(3)] parseFlags_keeps [of "resetState s" "tl fmtStart"]
      assms(2) reset_keeps [of s]
    by simp
  fix s' fmtEnd
  assume "streamStateFromFormat pol formatters s fmtStart = Returns (s', fmtEnd)"
  then have "applyConversion pol s2 (skipLengthModifiers c2) = Returns (s', fmtEnd)"
    using streamStateFromFormat_after_width [OF assms] p by (simp add: and_then_def)
  from applyConversion_keeps [OF this] six show "precision (out s') = 6"
    by simp
qed

theorem negative_precision_is_zero_witness:
  "deref ''%.-12f|'' = CHR ''%'' \<and> deref ''%f|'' = CHR ''%''
   \<and> parsePrecision Continue [] (fr0\<lparr>out := os0\<lparr>flags := {skipws}\<rparr>\<rparr>) ''.-12f|''
       = Returns (fr0\<lparr>out := os0\<lparr>flags := {skipws}, precision := 0\<rparr>, precisionSet := True\<rparr>,
                  ''f|'')
   \<and> (\<exists>s'. streamStateFromFormat Continue [] fr0 ''%.-12f|'' = Returns (s', ''|'')
         \<and> precision (out s') = 0 \<and> reported s' = [])
   \<and> (\<exists>s'. streamStateFromFormat Continue [] fr0 ''%f|'' = Returns (s', ''|'')
         \<and> precision (out s') = 6)"
proof -
  have p: "deref ''%.-12f|'' = CHR ''%''" "deref ''%f|'' = CHR ''%''"
    by (simp_all add: deref_def)
  have d: "''.-12f|'' = CHR ''.'' # CHR ''-'' # ''12'' @ ''f|'' \<and> (\<forall>d \<in> set ''12''. is_digit d)
      \<and> \<not> is_digit (deref ''f|'')"
    by (simp add: is_digit_def deref_def)
  have f: "deref ''f|'' \<noteq> CHR ''.''"
    by (simp add: deref_def)
  obtain s1 where r1: "streamStateFromFormat Continue [] fr0 ''%.-12f|'' = Returns (s1, ''|'')"
    and e1: "reported s1 = []"
    by (simp add: interp_defs stream_defs sample_defs)
  obtain s2 where r2: "streamStateFromFormat Continue [] fr0 ''%f|'' = Returns (s2, ''|'')"
    by (simp add: interp_defs stream_defs sample_defs)
  note neg = negative_precision_is_zero [OF p(1) sample_negative_precision, of "''12''" "''f|''",
      THEN conjunct1, rule_format, OF d]
  note none = negative_precision_is_zero [OF p(2) sample_no_precision, of "[]" "[]",
      THEN conjunct2, rule_format, OF f]
  have a: "parsePrecision Continue [] (fr0\<lparr>out := os0\<lparr>flags := {skipws}\<rparr>\<rparr>) ''.-12f|''
       = Returns (fr0\<lparr>out := os0\<lparr>flags := {skipws}, precision := 0\<rparr>, precisionSet := True\<rparr>,
                  ''f|'')"
    using neg [THEN conjunct1] by simp
  have "precision (out s1) = 0"
    using neg [THEN conjunct2] r1 by blast
  with r1 e1 have b: "\<exists>s'. streamStateFromFormat Continue [] fr0 ''%.-12f|'' = Returns (s', ''|'')
         \<and> precision (out s') = 0 \<and> reported s' = []"
    by (intro exI [of _ s1]) simp
  have "precision (out s2) = 6"
    using none [THEN conjunct2] r2 by blast
  with r2 have c: "\<exists>s'. streamStateFromFormat Continue [] fr0 ''%f|'' = Returns (s', ''|'')
         \<and> precision (out s') = 6"
    by (intro exI [of _ s2]) simp
  show ?thesis
    by (intro conjI p a b c)
qed

text \<open>
  C8, as amended. When the interpreter reaches the conversion character \<^verbatim>\<open>s\<close>, it
  returns just past it, having set \<open>boolalpha\<close> and reported nothing; \<open>ntrunc\<close> is
  the stream precision converted to \<^verbatim>\<open>int\<close> if a precision was given and otherwise
  the value it had on entry (\<^verbatim>\<open>formatImpl\<close> passes -1). The precision is copied, not
  moved: the stream precision keeps the parsed value next to \<open>ntrunc\<close>.
\<close>

theorem string_conversion:
  assumes "deref fmtStart = CHR ''%''"
    and "parseToConversion pol formatters (resetState s) (tl fmtStart) = Returns (s4, c4)"
    and "deref c4 = CHR ''s''"
  shows "\<exists>s'. streamStateFromFormat pol formatters s fmtStart = Returns (s', tl c4)
     \<and> flags (out s') = insert boolalpha (flags (out s4))
     \<and> ntrunc s' = (if precisionSet s4 then ucast (precision (out s4)) else ntrunc s)
     \<and> precision (out s') = precision (out s4)
     \<and> reported s' = reported s4"
  using assms parseToConversion_keeps [OF assms(2)] reset_keeps [of s]
  by (simp add: streamStateFromFormat_percent and_then_def applyConversion_def
      integerPrecision_def setf_def)

theorem string_conversion_witness:
  "deref ''%.3s|'' = CHR ''%'' \<and> deref ''%s|'' = CHR ''%'' \<and> deref ''s|'' = CHR ''s''
   \<and> (\<exists>s'. streamStateFromFormat Continue [] fr0 ''%.3s|'' = Returns (s', ''|'')
         \<and> boolalpha \<in> flags (out s') \<and> ntrunc s' = 3 \<and> precision (out s') = 3)
   \<and> (\<exists>s'. streamStateFromFormat Continue [] fr0 ''%s|'' = Returns (s', ''|'')
         \<and> boolalpha \<in> flags (out s') \<and> ntrunc s' = - 1 \<and> precision (out s') = 6)"
proof -
  have p: "deref ''%.3s|'' = CHR ''%''" "deref ''%s|'' = CHR ''%''" "deref ''s|'' = CHR ''s''"
    by (simp_all add: deref_def)
  from string_conversion [OF p(1) sample_string_precision p(3)]
  have a: "\<exists>s'. streamStateFromFormat Continue [] fr0 ''%.3s|'' = Returns (s', ''|'')
         \<and> boolalpha \<in> flags (out s') \<and> ntrunc s' = 3 \<and> precision (out s') = 3"
    by (auto simp: fr0_def os0_def is_flag_def)
  from string_conversion [OF p(2) sample_string_plain p(3)]
  have b: "\<exists>s'. streamStateFromFormat Continue [] fr0 ''%s|'' = Returns (s', ''|'')
         \<and> boolalpha \<in> flags (out s') \<and> ntrunc s' = - 1 \<and> precision (out s') = 6"
    by (auto simp: fr0_def os0_def is_flag_def)
  show ?thesis
    by (intro conjI p a b)
qed

text \<open>
  C8 as stated fails where it says the precision is captured rather than left as stream
  precision: after \<^verbatim>\<open>%.3s\<close> on a fresh stream \<open>ntrunc\<close> is 3 and the stream
  precision is 3 as well (line 159 sets it, line 213 only reads it).
\<close>

theorem string_precision_stays_on_stream:
  "\<exists>s'. streamStateFromFormat Continue [] fr0 ''%.3s|'' = Returns (s', ''|'')
     \<and> ntrunc s' = 3 \<and> precision (out s') = 3"
  by (simp add: interp_defs stream_defs sample_defs)

text \<open>
  C9. For a format string without a percent sign (and, being a C string, without a NUL
  before its end) and an empty argument list, \<^verbatim>\<open>formatImpl\<close> appends the string to
  the output character for character, changes nothing else of the stream, and reports
  no error, under either error policy.
\<close>

theorem plain_text_is_copied:
  assumes "CHR 0x00 \<notin> set fmt" and "CHR ''%'' \<notin> set fmt"
  shows "formatImpl pol os fmt [] = Returns \<lparr>out = emit fmt os, reported = []\<rparr>"
  using assms
  by (simp add: formatImpl_def scan_literal deref_def and_then_def emit_def)

theorem plain_text_is_copied_witness:
  "CHR 0x00 \<notin> set ''hello, world'' \<and> CHR ''%'' \<notin> set ''hello, world''
   \<and> formatImpl Continue os0 ''hello, world'' []
       = Returns \<lparr>out = os0\<lparr>buffer := ''hello, world''\<rparr>, reported = []\<rparr>"
  using plain_text_is_copied [of "''hello, world''" Continue os0]
  by (simp add: emit_def os0_def)

text \<open>
  C10. When the interpreter reaches a conversion character that is neither one of
  \<^verbatim>\<open>d i u o x X p e E f F g G c s a A n\<close> nor the terminator, it returns the frame as
  the flags, width and precision steps left it (the same stream configuration, the same
  list of reported errors) and the cursor just past that character, under either
  policy.
\<close>

theorem unrecognised_conversion_is_consumed:
  assumes "deref fmtStart = CHR ''%''"
    and "parseToConversion pol formatters (resetState s) (tl fmtStart) = Returns (s4, c4)"
    and "deref c4 \<notin> set ''diuoxXpeEfFgGcsaAn''" and "deref c4 \<noteq> CHR 0x00"
  shows "streamStateFromFormat pol formatters s fmtStart = Returns (s4, tl c4)"
  using assms
  by (simp add: streamStateFromFormat_percent and_then_def applyConversion_def
      integerPrecision_def)

theorem unrecognised_conversion_is_consumed_witness:
  "deref ''%5.2k rest'' = CHR ''%''
   \<and> deref ''k rest'' \<notin> set ''diuoxXpeEfFgGcsaAn'' \<and> deref ''k rest'' \<noteq> CHR 0x00
   \<and> streamStateFromFormat Continue [] fr0 ''%5.2k rest''
       = Returns (fr0\<lparr>out := os0\<lparr>width := 5, precision := 2, flags := {skipws}\<rparr>,
                      precisionSet := True, widthSet := True\<rparr>, '' rest'')"
proof -
  have p: "deref ''%5.2k rest'' = CHR ''%''"
    by (simp add: deref_def)
  have k: "deref ''k rest'' \<notin> set ''diuoxXpeEfFgGcsaAn''" "deref ''k rest'' \<noteq> CHR 0x00"
    by (simp_all add: deref_def)
  show ?thesis
    using unrecognised_conversion_is_consumed [OF p sample_unrecognised k] p k
    by simp
qed

end
